theory Spec2Isabelle
  imports Main "HOL-Library.Word" "HOL-Library.Sublist"
begin

section \<open>The rollback controller of src/main.go\<close>

subsection \<open>Data model\<close>

text \<open>
  The structs \<open>v1beta1.Deployment\<close>, \<open>v1beta1.DeploymentCondition\<close> and
  \<open>v1beta1.RollbackConfig\<close> are declared by the client library the program imports.
  The records below carry the fields \<open>main.go\<close> reads or writes, and a few of their
  neighbours. A field is an \<open>option\<close> where \<open>main.go\<close> treats it as a pointer:
  it compares it with \<open>nil\<close> (\<open>c.Type\<close>, \<open>c.Status\<close>, \<open>c.Reason\<close>,
  \<open>d.Spec.RollbackTo\<close>), takes an address for it (\<open>Revision\<close>) or dereferences it
  (\<open>*d.Metadata.Name\<close>). The structs \<open>Metadata\<close>, \<open>Spec\<close> and \<open>Status\<close>
  of a listed deployment are taken as present.
\<close>

record DeploymentCondition =
  Type :: "string option"
  Status :: "string option"
  Reason :: "string option"
  Message :: "string option"

record DeploymentStatus =
  ObservedGeneration :: "64 word option"
  Conditions :: "DeploymentCondition list"

record RollbackConfig =
  Revision :: "64 word option"

record DeploymentSpec =
  Replicas :: "32 word option"
  Paused :: "bool option"
  RollbackTo :: "RollbackConfig option"

record ObjectMeta =
  Name :: "string option"
  Namespace :: "string option"

text \<open>The field \<open>Status\<close> of a deployment is named \<open>DStatus\<close>, since
  \<open>Status\<close> is the field of a condition.\<close>

record Deployment =
  Metadata :: ObjectMeta
  Spec :: DeploymentSpec
  DStatus :: DeploymentStatus

subsection \<open>deploymentFailed\<close>

text \<open>The closure \<open>eq\<close> of \<open>deploymentFailed\<close>:
  \<open>s != nil && *s == to\<close>.\<close>

definition eq :: "string option \<Rightarrow> string \<Rightarrow> bool" where
  "eq s to = (case s of None \<Rightarrow> False | Some v \<Rightarrow> v = to)"

text \<open>The loop over \<open>d.Status.Conditions\<close>: it returns \<open>true\<close> at the first condition
  that passes the three tests, and \<open>false\<close> when the range is exhausted.\<close>

fun conditionsLoop :: "DeploymentCondition list \<Rightarrow> bool" where
  "conditionsLoop [] = False"
| "conditionsLoop (c # cs) =
     (if eq (Type c) ''Progressing'' \<and>
         eq (Status c) ''False'' \<and>
         eq (Reason c) ''ProgressDeadlineExceeded''
      then True
      else conditionsLoop cs)"

definition deploymentFailed :: "Deployment \<Rightarrow> bool" where
  "deploymentFailed d = conditionsLoop (Conditions (DStatus d))"

subsection \<open>The client and the effects of a pass\<close>

text \<open>
  The Kubernetes client is a parameter of the controller. Its two calls are functions on
  the state \<open>'c\<close> of whatever stands behind it: \<open>ListDeployments\<close> returns the error
  or the listed items, \<open>UpdateDeployment\<close> returns the error, if any (its first result is
  discarded by \<open>run\<close>). An error is the text \<open>%v\<close> prints for it. The field
  \<open>Namespace\<close> of the client is named \<open>Namespace_of\<close>, since \<open>Namespace\<close> is a
  field of the metadata.
\<close>

record 'c client =
  Namespace_of :: string
  ListDeployments :: "'c \<Rightarrow> string \<Rightarrow> (string + Deployment list) \<times> 'c"
  UpdateDeployment :: "'c \<Rightarrow> Deployment \<Rightarrow> string option \<times> 'c"

text \<open>
  \<open>deployments.Items\<close> is a slice of pointers, and \<open>toUpdate\<close> holds some of the same
  pointers: the assignment to \<open>d.Spec.RollbackTo\<close> in the second loop changes the listed
  object. The objects of one listing are kept in a list, and the pointer to an object is
  its position in it.
\<close>

type_synonym ptr = nat

text \<open>What a pass does to the outside, in the order it does it: the calls on the client
  and the lines it logs. An update is recorded with the pointer passed, the object it
  points to at the call, and the error the call returned.\<close>

datatype event =
  is_ListCall: ListCall string
| is_LogSummary: LogSummary int int int
| is_UpdateCall: UpdateCall ptr Deployment "string option"
| is_LogRolledBack: LogRolledBack string

record 'c world =
  dir :: 'c
  objs :: "Deployment list"
  trace :: "event list"

text \<open>How \<open>run\<close> ends: \<open>return nil\<close>, \<open>return fmt.Errorf(...)\<close>, or the run-time
  panic of a nil pointer dereference, which nothing in the program recovers.\<close>

datatype result = Ok | Error string | Panic

subsection \<open>run\<close>

text \<open>The two errors \<open>run\<close> builds: \<open>fmt.Errorf("list deployments: %v", err)\<close> and
  \<open>fmt.Errorf("update deployment: %v", err)\<close>.\<close>

definition listError :: "string \<Rightarrow> string" where
  "listError err = ''list deployments: '' @ err"

definition updateError :: "string \<Rightarrow> string" where
  "updateError err = ''update deployment: '' @ err"

text \<open>The first loop of \<open>run\<close>, over the pointers of \<open>deployments.Items\<close>, with the
  variables \<open>toUpdate\<close> and \<open>failed\<close>.\<close>

fun planLoop :: "Deployment list \<Rightarrow> ptr list \<Rightarrow> ptr list \<times> int \<Rightarrow> ptr list \<times> int" where
  "planLoop h [] (toUpdate, failed) = (toUpdate, failed)"
| "planLoop h (p # ps) (toUpdate, failed) =
     (if \<not> deploymentFailed (h ! p) then planLoop h ps (toUpdate, failed)
      else if RollbackTo (Spec (h ! p)) = None
        then planLoop h ps (toUpdate @ [p], failed + 1)
        else planLoop h ps (toUpdate, failed + 1))"

text \<open>The assignment \<open>d.Spec.RollbackTo = &v1beta1.RollbackConfig{Revision: &lastRevision}\<close>
  with \<open>lastRevision = 0\<close>.\<close>

definition setRollbackTo :: "Deployment \<Rightarrow> Deployment" where
  "setRollbackTo d = d\<lparr>Spec := (Spec d)\<lparr>RollbackTo := Some \<lparr>Revision = Some 0\<rparr>\<rparr>\<rparr>"

text \<open>The second loop of \<open>run\<close>, over \<open>toUpdate\<close>. The log line dereferences
  \<open>d.Metadata.Name\<close>.\<close>

fun dispatchLoop :: "'c client \<Rightarrow> ptr list \<Rightarrow> 'c world \<Rightarrow> result \<times> 'c world" where
  "dispatchLoop cl [] w = (Ok, w)"
| "dispatchLoop cl (p # ps) w =
     (let d = setRollbackTo (objs w ! p);
          (err, c') = UpdateDeployment cl (dir w) d;
          w' = \<lparr>dir = c', objs = (objs w)[p := d], trace = trace w @ [UpdateCall p d err]\<rparr>
      in case err of
           Some e \<Rightarrow> (Error (updateError e), w')
         | None \<Rightarrow>
             (case Name (Metadata d) of
                None \<Rightarrow> (Panic, w')
              | Some n \<Rightarrow> dispatchLoop cl ps (w'\<lparr>trace := trace w' @ [LogRolledBack n]\<rparr>)))"

definition run :: "'c client \<Rightarrow> 'c \<Rightarrow> result \<times> 'c world" where
  "run cl c =
     (case ListDeployments cl c (Namespace_of cl) of
        (Inl err, c') \<Rightarrow>
          (Error (listError err),
           \<lparr>dir = c', objs = [], trace = [ListCall (Namespace_of cl)]\<rparr>)
      | (Inr items, c') \<Rightarrow>
          (case planLoop items [0..<length items] ([], 0) of
             (toUpdate, failed) \<Rightarrow>
               dispatchLoop cl toUpdate
                 \<lparr>dir = c', objs = items,
                  trace = [ListCall (Namespace_of cl),
                           LogSummary (int (length items)) failed
                             (failed - int (length toUpdate))]\<rparr>))"

subsection \<open>Reading a trace\<close>

text \<open>The update calls of a trace that were made with the pointer \<open>q\<close>: the object
  submitted and the error returned, in the order of the calls.\<close>

fun updatesOf :: "ptr \<Rightarrow> event list \<Rightarrow> (Deployment \<times> string option) list" where
  "updatesOf q [] = []"
| "updatesOf q (UpdateCall p d e # es) =
     (if p = q then (d, e) # updatesOf q es else updatesOf q es)"
| "updatesOf q (ev # es) = updatesOf q es"

text \<open>The pointers of all update calls of a trace, in the order of the calls.\<close>

fun updatePtrs :: "event list \<Rightarrow> ptr list" where
  "updatePtrs [] = []"
| "updatePtrs (UpdateCall p d e # es) = p # updatePtrs es"
| "updatePtrs (ev # es) = updatePtrs es"

text \<open>
  The shapes the events of the second loop can take, for the pointers \<open>ps\<close> over the
  objects \<open>h\<close>, together with the way the loop ends. It is used in the proofs only:
  \<open>dispatchLoop\<close> is shown to produce events of this shape, and the properties of a
  pass are read off it.
\<close>

inductive dispatches :: "Deployment list \<Rightarrow> ptr list \<Rightarrow> event list \<Rightarrow> result \<Rightarrow> bool"
  for h :: "Deployment list" where
  finished: "dispatches h [] [] Ok"
| rejected: "dispatches h (p # ps) [UpdateCall p (setRollbackTo (h ! p)) (Some e)]
               (Error (updateError e))"
| nameless: "Name (Metadata (h ! p)) = None \<Longrightarrow>
             dispatches h (p # ps) [UpdateCall p (setRollbackTo (h ! p)) None] Panic"
| accepted: "Name (Metadata (h ! p)) = Some n \<Longrightarrow> dispatches h ps evs r \<Longrightarrow>
             dispatches h (p # ps)
               (UpdateCall p (setRollbackTo (h ! p)) None # LogRolledBack n # evs) r"

subsection \<open>The client's side of the second loop\<close>

text \<open>
  What the directory behind the client goes through when the deployments \<open>ds\<close> are
  submitted to \<open>UpdateDeployment\<close> one after the other, each call starting from the
  state the call before it left: \<open>submitAll\<close> is the state after the last call, and
  \<open>acceptsAll\<close> says that every one of the calls returns no error.
\<close>

fun submitAll :: "'c client \<Rightarrow> Deployment list \<Rightarrow> 'c \<Rightarrow> 'c" where
  "submitAll cl [] c = c"
| "submitAll cl (d # ds) c = submitAll cl ds (snd (UpdateDeployment cl c d))"

fun acceptsAll :: "'c client \<Rightarrow> Deployment list \<Rightarrow> 'c \<Rightarrow> bool" where
  "acceptsAll cl [] c = True"
| "acceptsAll cl (d # ds) c =
     (if fst (UpdateDeployment cl c d) = None
      then acceptsAll cl ds (snd (UpdateDeployment cl c d))
      else False)"

subsection \<open>An in-memory directory for the examples\<close>

text \<open>
  A directory that holds deployments and answers the two calls: the listing returns what
  it holds; an update replaces the deployment of the same name, whole, unless the name is
  among \<open>rejects\<close>, in which case the call fails and the directory is unchanged.
\<close>

record memdir =
  store :: "Deployment list"
  rejects :: "string list"

definition memList :: "memdir \<Rightarrow> string \<Rightarrow> (string + Deployment list) \<times> memdir" where
  "memList m ns = (Inr (store m), m)"

definition memUpdate :: "memdir \<Rightarrow> Deployment \<Rightarrow> string option \<times> memdir" where
  "memUpdate m d =
     (if (\<exists>n \<in> set (rejects m). Name (Metadata d) = Some n) then (Some ''conflict'', m)
      else (None, m\<lparr>store := map (\<lambda>x. if Name (Metadata x) = Name (Metadata d) then d else x)
                                (store m)\<rparr>))"

definition memClient :: "memdir client" where
  "memClient = \<lparr>Namespace_of = ''default'', ListDeployments = memList,
                 UpdateDeployment = memUpdate\<rparr>"

text \<open>A client whose listing fails.\<close>

definition downClient :: "memdir client" where
  "downClient = \<lparr>Namespace_of = ''default'',
                  ListDeployments = (\<lambda>m ns. (Inl ''connection refused'', m)),
                  UpdateDeployment = memUpdate\<rparr>"

definition deadlineExceeded :: DeploymentCondition where
  "deadlineExceeded = \<lparr>Type = Some ''Progressing'', Status = Some ''False'',
                        Reason = Some ''ProgressDeadlineExceeded'', Message = None\<rparr>"

definition available :: DeploymentCondition where
  "available = \<lparr>Type = Some ''Available'', Status = Some ''True'',
                 Reason = Some ''MinimumReplicasAvailable'', Message = None\<rparr>"

definition deployment ::
  "string option \<Rightarrow> DeploymentCondition list \<Rightarrow> RollbackConfig option \<Rightarrow> Deployment" where
  "deployment n cs rb =
     \<lparr>Metadata = \<lparr>Name = n, Namespace = Some ''default''\<rparr>,
      Spec = \<lparr>Replicas = Some 3, Paused = None, RollbackTo = rb\<rparr>,
      DStatus = \<lparr>ObservedGeneration = Some 1, Conditions = cs\<rparr>\<rparr>"

text \<open>The three records of the example scenario: \<open>A\<close> has no matching condition,
  \<open>B\<close> has one and no rollback request, \<open>C\<close> has one and a rollback request.\<close>

definition recA :: Deployment where
  "recA = deployment (Some ''a'') [available] None"

definition recB :: Deployment where
  "recB = deployment (Some ''b'') [available, deadlineExceeded] None"

definition recC :: Deployment where
  "recC = deployment (Some ''c'') [deadlineExceeded] (Some \<lparr>Revision = Some 2\<rparr>)"

definition scenario :: memdir where
  "scenario = \<lparr>store = [recA, recB, recC], rejects = []\<rparr>"

text \<open>Three records that all need a rollback, in a directory that rejects the update of
  the second.\<close>

definition recOne :: Deployment where
  "recOne = deployment (Some ''one'') [deadlineExceeded] None"

definition recTwo :: Deployment where
  "recTwo = deployment (Some ''two'') [deadlineExceeded, available] None"

definition recThree :: Deployment where
  "recThree = deployment (Some ''three'') [deadlineExceeded] None"

definition threeFailed :: memdir where
  "threeFailed = \<lparr>store = [recOne, recTwo, recThree], rejects = [''two'']\<rparr>"

text \<open>A failed record without a rollback request whose \<open>Metadata.Name\<close> is \<open>nil\<close>.\<close>

definition recNameless :: Deployment where
  "recNameless = deployment None [deadlineExceeded] None"

definition anonymous :: memdir where
  "anonymous = \<lparr>store = [recNameless], rejects = []\<rparr>"

section \<open>Properties\<close>

subsection \<open>Auxiliary facts\<close>

lemma eq_Some: "eq s to \<longleftrightarrow> s = Some to"
  by (cases s) (auto simp: eq_def)

lemma conditionsLoop_iff:
  "conditionsLoop cs \<longleftrightarrow>
     (\<exists>c \<in> set cs. Type c = Some ''Progressing'' \<and> Status c = Some ''False'' \<and>
                     Reason c = Some ''ProgressDeadlineExceeded'')"
  by (induction cs) (auto simp: eq_Some)

lemma planLoop_filter:
  "planLoop h ps (toUpdate, failed) =
     (toUpdate @ filter (\<lambda>p. deploymentFailed (h ! p) \<and> RollbackTo (Spec (h ! p)) = None) ps,
      failed + int (length (filter (\<lambda>p. deploymentFailed (h ! p)) ps)))"
  by (induction ps arbitrary: toUpdate failed) auto

lemma filter_upt_nth:
  "map ((!) xs) (filter (\<lambda>p. P (xs ! p)) [0..<length xs]) = filter P xs"
proof -
  have "map ((!) xs) (filter (\<lambda>p. P (xs ! p)) [0..<length xs]) =
        filter P (map ((!) xs) [0..<length xs])"
    by (simp add: filter_map comp_def)
  then show ?thesis by (simp add: map_nth)
qed

lemma length_filter_upt_nth:
  "length (filter (\<lambda>p. P (xs ! p)) [0..<length xs]) = length (filter P xs)"
  using arg_cong [OF filter_upt_nth [of xs P], of length] by simp

lemma updatesOf_append: "updatesOf q (xs @ ys) = updatesOf q xs @ updatesOf q ys"
  by (induction q xs rule: updatesOf.induct) auto

lemma updatePtrs_append: "updatePtrs (xs @ ys) = updatePtrs xs @ updatePtrs ys"
  by (induction xs rule: updatePtrs.induct) auto

lemma dispatches_cong:
  "dispatches h ps evs r \<Longrightarrow> (\<And>q. q \<in> set ps \<Longrightarrow> h' ! q = h ! q) \<Longrightarrow> dispatches h' ps evs r"
proof (induction rule: dispatches.induct)
  case finished
  show ?case by (rule dispatches.finished)
next
  case (rejected p ps e)
  have "h' ! p = h ! p" using rejected by simp
  then show ?case using dispatches.rejected [of h' p ps e] by simp
next
  case (nameless p ps)
  have "h' ! p = h ! p" using nameless by simp
  then show ?case using dispatches.nameless [of h' p ps] nameless by simp
next
  case (accepted p n ps evs r)
  have eq: "h' ! p = h ! p" using accepted by simp
  have "dispatches h' ps evs r" using accepted by simp
  then show ?case using dispatches.accepted [of h' p n ps evs r] accepted(1) eq by simp
qed

lemma Metadata_setRollbackTo [simp]: "Metadata (setRollbackTo d) = Metadata d"
  by (simp add: setRollbackTo_def)

lemma dispatchLoop_dispatches:
  "distinct ps \<Longrightarrow> dispatchLoop cl ps w = (r, w') \<Longrightarrow>
     \<exists>evs. trace w' = trace w @ evs \<and> dispatches (objs w) ps evs r"
proof (induction ps arbitrary: w)
  case Nil
  then show ?case by (auto intro: dispatches.finished)
next
  case (Cons p ps)
  let ?d = "setRollbackTo (objs w ! p)"
  obtain err c' where upd: "UpdateDeployment cl (dir w) ?d = (err, c')"
    by (cases "UpdateDeployment cl (dir w) ?d")
  let ?w1 = "\<lparr>dir = c', objs = (objs w)[p := ?d], trace = trace w @ [UpdateCall p ?d err]\<rparr>"
  show ?case
  proof (cases err)
    case (Some e)
    then show ?thesis using Cons.prems upd
      by (auto simp: Let_def intro: dispatches.rejected)
  next
    case None
    show ?thesis
    proof (cases "Name (Metadata (objs w ! p))")
      case noname: None
      then show ?thesis using Cons.prems upd None
        by (auto simp: Let_def intro: dispatches.nameless)
    next
      case (Some n)
      let ?w2 = "?w1\<lparr>trace := trace ?w1 @ [LogRolledBack n]\<rparr>"
      have run: "dispatchLoop cl ps ?w2 = (r, w')"
        using Cons.prems upd None Some by (simp add: Let_def)
      from Cons.IH [OF _ run] Cons.prems(1)
      obtain evs where tr: "trace w' = trace ?w2 @ evs" and ds: "dispatches (objs ?w2) ps evs r"
        by auto
      have same: "objs w ! q = objs ?w2 ! q" if "q \<in> set ps" for q
      proof -
        have "q \<noteq> p" using that Cons.prems(1) by auto
        then show ?thesis by simp
      qed
      have "dispatches (objs w) ps evs r"
        by (rule dispatches_cong [OF ds]) (rule same)
      with Some
      have "dispatches (objs w) (p # ps) (UpdateCall p ?d None # LogRolledBack n # evs) r"
        by (rule dispatches.accepted)
      then show ?thesis using tr None by auto
    qed
  qed
qed

lemma dispatches_ptrs: "dispatches h ps evs r \<Longrightarrow> prefix (updatePtrs evs) ps"
  by (induction rule: dispatches.induct) auto

lemma dispatches_Ok_ptrs: "dispatches h ps evs r \<Longrightarrow> r = Ok \<Longrightarrow> updatePtrs evs = ps"
  by (induction rule: dispatches.induct) auto

lemma dispatches_member:
  "dispatches h ps evs r \<Longrightarrow> UpdateCall p d e \<in> set evs \<Longrightarrow> p \<in> set ps \<and> d = setRollbackTo (h ! p)"
  by (induction rule: dispatches.induct) auto

lemma dispatches_kinds:
  "dispatches h ps evs r \<Longrightarrow> ev \<in> set evs \<Longrightarrow>
     (\<exists>p d e. ev = UpdateCall p d e) \<or> (\<exists>n. ev = LogRolledBack n)"
  by (induction rule: dispatches.induct) auto



lemma dispatches_other: "dispatches h ps evs r \<Longrightarrow> q \<notin> set ps \<Longrightarrow> updatesOf q evs = []"
  by (induction rule: dispatches.induct) auto

lemma dispatches_once:
  "dispatches h ps evs r \<Longrightarrow> r = Ok \<Longrightarrow> distinct ps \<Longrightarrow> q \<in> set ps \<Longrightarrow>
     updatesOf q evs = [(setRollbackTo (h ! q), None)]"
  by (induction rule: dispatches.induct) (auto simp: dispatches_other)

lemma dispatch_length:
  "dispatchLoop cl ps w = (r, w') \<Longrightarrow> length (objs w') = length (objs w)"
  by (induction ps arbitrary: w) (auto simp: Let_def split: prod.splits option.splits)

lemma dispatch_objs_other:
  "dispatchLoop cl ps w = (r, w') \<Longrightarrow> q \<notin> set ps \<Longrightarrow> objs w' ! q = objs w ! q"
  by (induction ps arbitrary: w) (auto simp: Let_def split: prod.splits option.splits)

lemma dispatch_objs_Ok:
  "dispatchLoop cl ps w = (Ok, w') \<Longrightarrow> distinct ps \<Longrightarrow> q \<in> set ps \<Longrightarrow> q < length (objs w) \<Longrightarrow>
     objs w' ! q = setRollbackTo (objs w ! q)"
proof (induction ps arbitrary: w)
  case Nil
  then show ?case by simp
next
  case (Cons p ps)
  let ?d = "setRollbackTo (objs w ! p)"
  obtain err c' where upd: "UpdateDeployment cl (dir w) ?d = (err, c')"
    by (cases "UpdateDeployment cl (dir w) ?d")
  let ?w1 = "\<lparr>dir = c', objs = (objs w)[p := ?d], trace = trace w @ [UpdateCall p ?d err]\<rparr>"
  from Cons.prems(1) upd obtain n where
    run: "dispatchLoop cl ps (?w1\<lparr>trace := trace ?w1 @ [LogRolledBack n]\<rparr>) = (Ok, w')"
    by (auto simp: Let_def split: option.splits)
  show ?case
  proof (cases "q = p")
    case True
    then have "q \<notin> set ps" using Cons.prems(2) by simp
    from dispatch_objs_other [OF run this] True Cons.prems(4) show ?thesis by simp
  next
    case False
    then have "q \<in> set ps" using Cons.prems(3) by simp
    from Cons.IH [OF run _ this] Cons.prems(2,4) False show ?thesis by simp
  qed
qed

lemma dispatch_dir_Ok:
  "dispatchLoop cl ps w = (Ok, w') \<Longrightarrow> distinct ps \<Longrightarrow>
     dir w' = submitAll cl (map (\<lambda>p. setRollbackTo (objs w ! p)) ps) (dir w) \<and>
     acceptsAll cl (map (\<lambda>p. setRollbackTo (objs w ! p)) ps) (dir w)"
proof (induction ps arbitrary: w)
  case Nil
  then show ?case by simp
next
  case (Cons p ps)
  let ?d = "setRollbackTo (objs w ! p)"
  obtain err c' where upd: "UpdateDeployment cl (dir w) ?d = (err, c')"
    by (cases "UpdateDeployment cl (dir w) ?d")
  let ?w1 = "\<lparr>dir = c', objs = (objs w)[p := ?d], trace = trace w @ [UpdateCall p ?d err]\<rparr>"
  from Cons.prems(1) upd obtain n where none: "err = None" and
    loop: "dispatchLoop cl ps (?w1\<lparr>trace := trace ?w1 @ [LogRolledBack n]\<rparr>) = (Ok, w')"
    by (auto simp: Let_def split: option.splits)
  have dist: "distinct ps" using Cons.prems(2) by simp
  have same: "map (\<lambda>q. setRollbackTo ((objs w)[p := ?d] ! q)) ps =
              map (\<lambda>q. setRollbackTo (objs w ! q)) ps"
  proof (rule map_cong [OF refl])
    fix q assume "q \<in> set ps"
    then have "q \<noteq> p" using Cons.prems(2) by auto
    then show "setRollbackTo ((objs w)[p := ?d] ! q) = setRollbackTo (objs w ! q)" by simp
  qed
  from Cons.IH [OF loop dist]
  have "dir w' = submitAll cl (map (\<lambda>q. setRollbackTo (objs w ! q)) ps) c' \<and>
        acceptsAll cl (map (\<lambda>q. setRollbackTo (objs w ! q)) ps) c'"
    by (simp add: same)
  then show ?case using upd none by simp
qed

lemma acceptsAll_middle:
  "acceptsAll cl (xs @ d # ys) c \<Longrightarrow> fst (UpdateDeployment cl (submitAll cl xs c) d) = None"
  by (induction xs arbitrary: c) (auto split: if_splits)

lemma filter_around_nth:
  assumes "p < length xs" and "P (xs ! p)"
  shows "filter P xs = filter P (take p xs) @ xs ! p # filter P (drop (Suc p) xs)"
proof -
  have "filter P xs = filter P (take p xs @ xs ! p # drop (Suc p) xs)"
    using id_take_nth_drop [OF assms(1)] by simp
  then show ?thesis using assms(2) by simp
qed

subsection \<open>A pass whose listing succeeded\<close>

lemma run_listed:
  assumes "ListDeployments cl c (Namespace_of cl) = (Inr items, c')"
  shows "run cl c =
     dispatchLoop cl
       (filter (\<lambda>p. deploymentFailed (items ! p) \<and> RollbackTo (Spec (items ! p)) = None)
          [0..<length items])
       \<lparr>dir = c', objs = items,
        trace = [ListCall (Namespace_of cl),
                 LogSummary (int (length items)) (int (length (filter deploymentFailed items)))
                   (int (length (filter deploymentFailed items)) -
                    int (length (filter (\<lambda>d. deploymentFailed d \<and> RollbackTo (Spec d) = None)
                                   items)))]\<rparr>"
proof -
  have n: "length (filter (\<lambda>p. deploymentFailed (items ! p) \<and> RollbackTo (Spec (items ! p)) = None)
             [0..<length items]) =
           length (filter (\<lambda>d. deploymentFailed d \<and> RollbackTo (Spec d) = None) items)"
    by (rule length_filter_upt_nth)
  have f: "length (filter (\<lambda>p. deploymentFailed (items ! p)) [0..<length items]) =
           length (filter deploymentFailed items)"
    by (rule length_filter_upt_nth)
  show ?thesis
    using assms by (simp add: run_def planLoop_filter n f)
qed

lemma run_dispatches:
  assumes "ListDeployments cl c (Namespace_of cl) = (Inr items, c')"
      and "run cl c = (r, w)"
  shows "\<exists>evs. trace w =
           [ListCall (Namespace_of cl),
            LogSummary (int (length items)) (int (length (filter deploymentFailed items)))
              (int (length (filter deploymentFailed items)) -
               int (length (filter (\<lambda>d. deploymentFailed d \<and> RollbackTo (Spec d) = None)
                              items)))] @ evs \<and>
         dispatches items
           (filter (\<lambda>p. deploymentFailed (items ! p) \<and> RollbackTo (Spec (items ! p)) = None)
              [0..<length items]) evs r"
proof -
  have d: "distinct (filter (\<lambda>p. deploymentFailed (items ! p) \<and>
                                  RollbackTo (Spec (items ! p)) = None) [0..<length items])"
    by simp
  from assms(2) have "dispatchLoop cl
       (filter (\<lambda>p. deploymentFailed (items ! p) \<and> RollbackTo (Spec (items ! p)) = None)
          [0..<length items])
       \<lparr>dir = c', objs = items,
        trace = [ListCall (Namespace_of cl),
                 LogSummary (int (length items)) (int (length (filter deploymentFailed items)))
                   (int (length (filter deploymentFailed items)) -
                    int (length (filter (\<lambda>d. deploymentFailed d \<and> RollbackTo (Spec d) = None)
                                   items)))]\<rparr> = (r, w)"
    by (simp only: run_listed [OF assms(1)])
  from dispatchLoop_dispatches [OF d this] show ?thesis by simp
qed

lemmas example_defs =
  memClient_def downClient_def memList_def memUpdate_def scenario_def threeFailed_def
  anonymous_def recA_def recB_def recC_def recOne_def recTwo_def recThree_def recNameless_def
  deployment_def deadlineExceeded_def available_def

lemmas run_defs =
  run_def deploymentFailed_def eq_def setRollbackTo_def upt_rec Let_def

section \<open>The claims\<close>

text \<open>
  C1. \<open>deploymentFailed\<close> returns true for a record if and only if one of the
  conditions of the record has the type \<open>Progressing\<close>, the status \<open>False\<close> and the
  reason \<open>ProgressDeadlineExceeded\<close>. A field that is absent is never equal to a text,
  so a record without a condition matching in all three fields yields false.
\<close>

theorem deploymentFailed_iff:
  "deploymentFailed d \<longleftrightarrow>
     (\<exists>c \<in> set (Conditions (DStatus d)).
        Type c = Some ''Progressing'' \<and> Status c = Some ''False'' \<and>
        Reason c = Some ''ProgressDeadlineExceeded'')"
  by (simp add: deploymentFailed_def conditionsLoop_iff)

theorem deploymentFailed_iff_witness:
  "deploymentFailed recB \<and> \<not> deploymentFailed recA \<and>
   \<not> deploymentFailed (deployment (Some ''x'')
        [\<lparr>Type = Some ''Progressing'', Status = None,
          Reason = Some ''ProgressDeadlineExceeded'', Message = None\<rparr>] None)"
  using deploymentFailed_iff [of recB] deploymentFailed_iff [of recA]
    deploymentFailed_iff [of "deployment (Some ''x'')
        [\<lparr>Type = Some ''Progressing'', Status = None,
          Reason = Some ''ProgressDeadlineExceeded'', Message = None\<rparr>] None"]
  by (simp add: recA_def recB_def deployment_def deadlineExceeded_def available_def)

text \<open>
  C2. The first loop of a pass goes over the listed records in order. A record that is
  not failed is skipped. A failed record is counted in \<open>failed\<close>. A failed record
  without a rollback request is appended to \<open>toUpdate\<close>; a failed record with one is
  not. So \<open>toUpdate\<close> holds the pointers of the failed records without a request, in
  listing order, \<open>failed\<close> is the number of failed records, and both are functions of
  the listing alone.
\<close>

theorem planLoop_partition:
  "planLoop items [0..<length items] ([], 0) =
     (filter (\<lambda>p. deploymentFailed (items ! p) \<and> RollbackTo (Spec (items ! p)) = None)
        [0..<length items],
      int (length (filter deploymentFailed items))) \<and>
   map ((!) items) (fst (planLoop items [0..<length items] ([], 0))) =
     filter (\<lambda>d. deploymentFailed d \<and> RollbackTo (Spec d) = None) items \<and>
   snd (planLoop items [0..<length items] ([], 0)) =
     int (length (filter (\<lambda>d. deploymentFailed d \<and> RollbackTo (Spec d) = None) items)) +
     int (length (filter (\<lambda>d. deploymentFailed d \<and> RollbackTo (Spec d) \<noteq> None) items))"
proof -
  have f: "length (filter (\<lambda>p. deploymentFailed (items ! p)) [0..<length items]) =
           length (filter deploymentFailed items)"
    by (rule length_filter_upt_nth)
  have m: "map ((!) items)
             (filter (\<lambda>p. deploymentFailed (items ! p) \<and> RollbackTo (Spec (items ! p)) = None)
                [0..<length items]) =
           filter (\<lambda>d. deploymentFailed d \<and> RollbackTo (Spec d) = None) items"
    by (rule filter_upt_nth)
  have s: "length (filter deploymentFailed items) =
           length (filter (\<lambda>d. deploymentFailed d \<and> RollbackTo (Spec d) = None) items) +
           length (filter (\<lambda>d. deploymentFailed d \<and> RollbackTo (Spec d) \<noteq> None) items)"
    by (induction items) auto
  show ?thesis
    by (simp add: planLoop_filter f m) (simp add: s)
qed

text \<open>
  C3. Take a pass whose listing succeeded and that returned \<open>nil\<close>, and a listed record
  that was failed and had no rollback request. At the end of the pass the record carries
  a rollback request of revision 0, and the pass has called \<open>UpdateDeployment\<close> with the
  pointer of that record exactly once: the object submitted was the listed one with the
  request of revision 0 set, and the call returned no error. The call was made on the
  client: the directory was then in the state the updates of the earlier records had
  left, the client accepted the record in that state, and the directory at the end of the
  pass is the one the client made of the accepted updates of all the failed records
  without a request, in listing order.
\<close>

theorem rollback_issued_once:
  assumes "ListDeployments cl c (Namespace_of cl) = (Inr items, c')"
      and "run cl c = (Ok, w)"
      and "p < length items"
      and "deploymentFailed (items ! p)"
      and "RollbackTo (Spec (items ! p)) = None"
  shows "RollbackTo (Spec (objs w ! p)) = Some \<lparr>Revision = Some 0\<rparr> \<and>
         objs w ! p = setRollbackTo (items ! p) \<and>
         updatesOf p (trace w) = [(setRollbackTo (items ! p), None)] \<and>
         RollbackTo (Spec (setRollbackTo (items ! p))) = Some \<lparr>Revision = Some 0\<rparr> \<and>
         fst (UpdateDeployment cl
                (submitAll cl
                   (map setRollbackTo
                      (filter (\<lambda>d. deploymentFailed d \<and> RollbackTo (Spec d) = None)
                         (take p items))) c')
                (setRollbackTo (items ! p))) = None \<and>
         acceptsAll cl
           (map setRollbackTo
              (filter (\<lambda>d. deploymentFailed d \<and> RollbackTo (Spec d) = None) items)) c' \<and>
         dir w =
           submitAll cl
             (map setRollbackTo
                (filter (\<lambda>d. deploymentFailed d \<and> RollbackTo (Spec d) = None) items)) c'"
proof -
  let ?ps = "filter (\<lambda>p. deploymentFailed (items ! p) \<and> RollbackTo (Spec (items ! p)) = None)
               [0..<length items]"
  let ?needs = "\<lambda>d. deploymentFailed d \<and> RollbackTo (Spec d) = None"
  have mem: "p \<in> set ?ps" using assms(3-5) by simp
  have dist: "distinct ?ps" by simp
  from run_dispatches [OF assms(1,2)] obtain evs a b c
    where tr: "trace w = [ListCall a, LogSummary (int (length items)) b c] @ evs"
      and ds: "dispatches items ?ps evs Ok"
    by blast
  have pre: "updatesOf p [ListCall a, LogSummary (int (length items)) b c] = []"
    by simp
  have once: "updatesOf p evs = [(setRollbackTo (items ! p), None)]"
    by (rule dispatches_once [OF ds refl dist mem])
  have loop: "dispatchLoop cl ?ps
       \<lparr>dir = c', objs = items,
        trace = [ListCall (Namespace_of cl),
                 LogSummary (int (length items)) (int (length (filter deploymentFailed items)))
                   (int (length (filter deploymentFailed items)) -
                    int (length (filter (\<lambda>d. deploymentFailed d \<and> RollbackTo (Spec d) = None)
                                   items)))]\<rparr> = (Ok, w)"
    using assms(2) by (simp only: run_listed [OF assms(1)])
  have obj: "objs w ! p = setRollbackTo (items ! p)"
    using dispatch_objs_Ok [OF loop dist mem] assms(3) by simp
  have zero: "RollbackTo (Spec (setRollbackTo (items ! p))) = Some \<lparr>Revision = Some 0\<rparr>"
    by (simp add: setRollbackTo_def)
  have upd: "updatesOf p (trace w) = [(setRollbackTo (items ! p), None)]"
    by (simp only: tr updatesOf_append pre once append_Nil)
  have "map ((!) items) ?ps = filter ?needs items"
    by (rule filter_upt_nth)
  then have "map setRollbackTo (map ((!) items) ?ps) = map setRollbackTo (filter ?needs items)"
    by (rule arg_cong)
  then have subm: "map (\<lambda>q. setRollbackTo (items ! q)) ?ps =
                   map setRollbackTo (filter ?needs items)"
    by (simp add: comp_def)
  from dispatch_dir_Ok [OF loop dist]
  have "dir w = submitAll cl (map (\<lambda>q. setRollbackTo (items ! q)) ?ps) c' \<and>
        acceptsAll cl (map (\<lambda>q. setRollbackTo (items ! q)) ?ps) c'"
    by simp
  then have final: "dir w = submitAll cl (map setRollbackTo (filter ?needs items)) c'"
    and acc: "acceptsAll cl (map setRollbackTo (filter ?needs items)) c'"
    by (simp_all only: subm)
  have "?needs (items ! p)" using assms(4,5) by simp
  from filter_around_nth [of p items ?needs, OF assms(3) this]
  have "map setRollbackTo (filter ?needs items) =
        map setRollbackTo (filter ?needs (take p items)) @
        setRollbackTo (items ! p) # map setRollbackTo (filter ?needs (drop (Suc p) items))"
    by simp
  with acc have "acceptsAll cl
        (map setRollbackTo (filter ?needs (take p items)) @
         setRollbackTo (items ! p) # map setRollbackTo (filter ?needs (drop (Suc p) items))) c'"
    by simp
  then have call: "fst (UpdateDeployment cl
                     (submitAll cl (map setRollbackTo (filter ?needs (take p items))) c')
                     (setRollbackTo (items ! p))) = None"
    by (rule acceptsAll_middle)
  from obj zero have first: "RollbackTo (Spec (objs w ! p)) = Some \<lparr>Revision = Some 0\<rparr>"
    by simp
  show ?thesis by (intro conjI first obj upd zero call acc final)
qed

theorem rollback_issued_once_witness:
  "ListDeployments memClient scenario (Namespace_of memClient) =
     (Inr [recA, recB, recC], scenario) \<and>
   fst (run memClient scenario) = Ok \<and>
   deploymentFailed ([recA, recB, recC] ! 1) \<and>
   RollbackTo (Spec ([recA, recB, recC] ! 1)) = None \<and>
   RollbackTo (Spec (objs (snd (run memClient scenario)) ! 1)) = Some \<lparr>Revision = Some 0\<rparr> \<and>
   updatesOf 1 (trace (snd (run memClient scenario))) =
     [(setRollbackTo ([recA, recB, recC] ! 1), None)] \<and>
   fst (UpdateDeployment memClient scenario (setRollbackTo recB)) = None \<and>
   dir (snd (run memClient scenario)) =
     \<lparr>store = [recA, setRollbackTo recB, recC], rejects = []\<rparr>"
proof -
  have l: "ListDeployments memClient scenario (Namespace_of memClient) =
           (Inr [recA, recB, recC], scenario)"
    by (simp add: memClient_def memList_def scenario_def)
  have ok: "fst (run memClient scenario) = Ok"
    by (simp add: example_defs run_defs)
  then have r: "run memClient scenario = (Ok, snd (run memClient scenario))"
    by (simp add: prod_eq_iff)
  have n: "(1::nat) < length [recA, recB, recC]" by simp
  have f: "deploymentFailed ([recA, recB, recC] ! 1)"
    by (simp add: example_defs run_defs)
  have a: "RollbackTo (Spec ([recA, recB, recC] ! 1)) = None"
    by (simp add: example_defs)
  have fA: "\<not> deploymentFailed recA"
    by (simp add: example_defs run_defs)
  have fB: "deploymentFailed recB"
    by (simp add: example_defs run_defs)
  have aB: "RollbackTo (Spec recB) = None"
    by (simp add: example_defs)
  have aC: "RollbackTo (Spec recC) \<noteq> None"
    by (simp add: example_defs)
  have before: "filter (\<lambda>d. deploymentFailed d \<and> RollbackTo (Spec d) = None)
                  (take 1 [recA, recB, recC]) = []"
    by (simp add: fA)
  have needs: "filter (\<lambda>d. deploymentFailed d \<and> RollbackTo (Spec d) = None)
                 [recA, recB, recC] = [recB]"
    by (simp add: fA fB aB aC)
  have st: "snd (UpdateDeployment memClient scenario (setRollbackTo recB)) =
            \<lparr>store = [recA, setRollbackTo recB, recC], rejects = []\<rparr>"
    by (simp add: example_defs setRollbackTo_def)
  note once = rollback_issued_once [OF l r n f a]
  from once have c1:
    "RollbackTo (Spec (objs (snd (run memClient scenario)) ! 1)) = Some \<lparr>Revision = Some 0\<rparr>"
    by (rule conjunct1)
  from once have c3:
    "updatesOf 1 (trace (snd (run memClient scenario))) =
       [(setRollbackTo ([recA, recB, recC] ! 1), None)]"
    by (rule conjunct1 [OF conjunct2 [OF conjunct2]])
  from once have
    "fst (UpdateDeployment memClient
            (submitAll memClient
               (map setRollbackTo
                  (filter (\<lambda>d. deploymentFailed d \<and> RollbackTo (Spec d) = None)
                     (take 1 [recA, recB, recC]))) scenario)
            (setRollbackTo ([recA, recB, recC] ! 1))) = None"
    by (rule conjunct1 [OF conjunct2 [OF conjunct2 [OF conjunct2 [OF conjunct2]]]])
  then have c5: "fst (UpdateDeployment memClient scenario (setRollbackTo recB)) = None"
    by (simp only: before list.map submitAll.simps) simp
  from once have
    "dir (snd (run memClient scenario)) =
       submitAll memClient
         (map setRollbackTo
            (filter (\<lambda>d. deploymentFailed d \<and> RollbackTo (Spec d) = None)
               [recA, recB, recC])) scenario"
    by (rule conjunct2 [OF conjunct2 [OF conjunct2 [OF conjunct2 [OF conjunct2
          [OF conjunct2]]]]])
  then have c7: "dir (snd (run memClient scenario)) =
                 \<lparr>store = [recA, setRollbackTo recB, recC], rejects = []\<rparr>"
    by (simp only: needs list.map submitAll.simps st)
  show ?thesis by (intro conjI l ok f a c1 c3 c5 c7)
qed

text \<open>
  C4. Take a pass whose listing succeeded, however the pass ends, and a listed record that
  had a rollback request in the listing. The first loop does not put its pointer into
  \<open>toUpdate\<close>, the pass makes no call of \<open>UpdateDeployment\<close> with its pointer, and the
  object is at the end of the pass what it was in the listing: the request that was
  there is not overwritten.
\<close>

theorem existing_request_untouched:
  assumes "ListDeployments cl c (Namespace_of cl) = (Inr items, c')"
      and "run cl c = (r, w)"
      and "p < length items"
      and "RollbackTo (Spec (items ! p)) \<noteq> None"
  shows "p \<notin> set (fst (planLoop items [0..<length items] ([], 0))) \<and>
         updatesOf p (trace w) = [] \<and>
         objs w ! p = items ! p"
proof -
  let ?ps = "filter (\<lambda>p. deploymentFailed (items ! p) \<and> RollbackTo (Spec (items ! p)) = None)
               [0..<length items]"
  have out: "p \<notin> set ?ps" using assms(4) by simp
  have plan: "fst (planLoop items [0..<length items] ([], 0)) = ?ps"
    by (simp add: planLoop_filter)
  from run_dispatches [OF assms(1,2)] obtain evs a b c
    where tr: "trace w = [ListCall a, LogSummary (int (length items)) b c] @ evs"
      and ds: "dispatches items ?ps evs r"
    by blast
  have pre: "updatesOf p [ListCall a, LogSummary (int (length items)) b c] = []"
    by simp
  have none: "updatesOf p evs = []"
    by (rule dispatches_other [OF ds out])
  have upd: "updatesOf p (trace w) = []"
    by (simp only: tr updatesOf_append pre none append_Nil)
  have loop: "dispatchLoop cl ?ps
       \<lparr>dir = c', objs = items,
        trace = [ListCall (Namespace_of cl),
                 LogSummary (int (length items)) (int (length (filter deploymentFailed items)))
                   (int (length (filter deploymentFailed items)) -
                    int (length (filter (\<lambda>d. deploymentFailed d \<and> RollbackTo (Spec d) = None)
                                   items)))]\<rparr> = (r, w)"
    using assms(2) by (simp only: run_listed [OF assms(1)])
  have obj: "objs w ! p = items ! p"
    using dispatch_objs_other [OF loop out] by simp
  show ?thesis
    using out upd obj by (simp only: plan not_False_eq_True simp_thms)
qed

theorem existing_request_untouched_witness:
  "ListDeployments memClient scenario (Namespace_of memClient) =
     (Inr [recA, recB, recC], scenario) \<and>
   RollbackTo (Spec ([recA, recB, recC] ! 2)) \<noteq> None \<and>
   deploymentFailed recC \<and>
   updatesOf 2 (trace (snd (run memClient scenario))) = [] \<and>
   objs (snd (run memClient scenario)) ! 2 = [recA, recB, recC] ! 2"
proof -
  have l: "ListDeployments memClient scenario (Namespace_of memClient) =
           (Inr [recA, recB, recC], scenario)"
    by (simp add: memClient_def memList_def scenario_def)
  have r: "run memClient scenario = (fst (run memClient scenario), snd (run memClient scenario))"
    by simp
  have n: "(2::nat) < length [recA, recB, recC]" by simp
  have a: "RollbackTo (Spec ([recA, recB, recC] ! 2)) \<noteq> None"
    by (simp add: example_defs)
  have f: "deploymentFailed recC"
    by (simp add: example_defs run_defs)
  note un = existing_request_untouched [OF l r n a]
  from un have c2: "updatesOf 2 (trace (snd (run memClient scenario))) = []"
    by (rule conjunct1 [OF conjunct2])
  from un have c3: "objs (snd (run memClient scenario)) ! 2 = [recA, recB, recC] ! 2"
    by (rule conjunct2 [OF conjunct2])
  show ?thesis by (intro conjI l a f c2 c3)
qed

text \<open>
  C7. When the listing fails, \<open>run\<close> returns the error built from the error of the
  listing and does nothing else: the only event of the pass is the call of the listing,
  there is no summary line, no update call, no object, and the directory is in the state
  the listing call left it in.
\<close>

theorem list_error_aborts:
  assumes "ListDeployments cl c (Namespace_of cl) = (Inl err, c')"
  shows "run cl c =
           (Error (listError err),
            \<lparr>dir = c', objs = [], trace = [ListCall (Namespace_of cl)]\<rparr>)"
  using assms by (simp add: run_def)

theorem list_error_aborts_witness:
  "ListDeployments downClient scenario (Namespace_of downClient) =
     (Inl ''connection refused'', scenario) \<and>
   run downClient scenario =
     (Error (listError ''connection refused''),
      \<lparr>dir = scenario, objs = [], trace = [ListCall (Namespace_of downClient)]\<rparr>)"
proof -
  have l: "ListDeployments downClient scenario (Namespace_of downClient) =
           (Inl ''connection refused'', scenario)"
    by (simp add: downClient_def)
  show ?thesis by (intro conjI l list_error_aborts [OF l])
qed



lemma setRollbackTo_twice: "setRollbackTo (setRollbackTo d) = setRollbackTo d"
  by (simp add: setRollbackTo_def)

lemma dispatch_objs_either:
  "dispatchLoop cl ps w = (r, w') \<Longrightarrow>
     objs w' ! q = objs w ! q \<or> objs w' ! q = setRollbackTo (objs w ! q)"
proof (induction ps arbitrary: w)
  case Nil
  then show ?case by simp
next
  case (Cons p ps)
  let ?d = "setRollbackTo (objs w ! p)"
  obtain err c' where upd: "UpdateDeployment cl (dir w) ?d = (err, c')"
    by (cases "UpdateDeployment cl (dir w) ?d")
  let ?w1 = "\<lparr>dir = c', objs = (objs w)[p := ?d], trace = trace w @ [UpdateCall p ?d err]\<rparr>"
  have step: "objs ?w1 ! q = objs w ! q \<or> objs ?w1 ! q = setRollbackTo (objs w ! q)"
    by (cases "q = p"; cases "p < length (objs w)") (simp_all add: list_update_beyond)
  show ?case
  proof (cases "\<exists>n. err = None \<and> Name (Metadata (objs w ! p)) = Some n")
    case False
    then have "objs w' = objs ?w1"
      using Cons.prems upd by (auto simp: Let_def split: option.splits)
    with step show ?thesis by simp
  next
    case True
    then obtain n where n: "err = None" "Name (Metadata (objs w ! p)) = Some n" by blast
    have "dispatchLoop cl ps (?w1\<lparr>trace := trace ?w1 @ [LogRolledBack n]\<rparr>) = (r, w')"
      using Cons.prems upd n by (simp add: Let_def)
    from Cons.IH [OF this]
    have "objs w' ! q = objs ?w1 ! q \<or> objs w' ! q = setRollbackTo (objs ?w1 ! q)"
      by simp
    with step show ?thesis
      by (auto simp: setRollbackTo_twice)
  qed
qed

text \<open>
  C10. Take a pass whose listing succeeded, however it ends. Every call of
  \<open>UpdateDeployment\<close> is made for a listed record that was failed and had no rollback
  request, and the object it submits is the listed one with \<open>Spec.RollbackTo\<close> set and
  nothing else changed: the metadata (name and namespace), the status (with the
  conditions) and the other fields of the spec are those of the listing. The same holds
  for every listed object at the end of the pass. A record that is not failed, or that
  had a request, is not changed and no update call is made with its pointer.
\<close>

theorem update_frame:
  assumes "ListDeployments cl c (Namespace_of cl) = (Inr items, c')"
      and "run cl c = (r, w)"
  shows "(\<forall>p d e. UpdateCall p d e \<in> set (trace w) \<longrightarrow>
            p < length items \<and> deploymentFailed (items ! p) \<and>
            RollbackTo (Spec (items ! p)) = None \<and>
            d = (items ! p)\<lparr>Spec := (Spec (items ! p))
                                \<lparr>RollbackTo := Some \<lparr>Revision = Some 0\<rparr>\<rparr>\<rparr> \<and>
            Metadata d = Metadata (items ! p) \<and> DStatus d = DStatus (items ! p) \<and>
            Replicas (Spec d) = Replicas (Spec (items ! p)) \<and>
            Paused (Spec d) = Paused (Spec (items ! p))) \<and>
         length (objs w) = length items \<and>
         (\<forall>q. Metadata (objs w ! q) = Metadata (items ! q) \<and>
              DStatus (objs w ! q) = DStatus (items ! q) \<and>
              Replicas (Spec (objs w ! q)) = Replicas (Spec (items ! q)) \<and>
              Paused (Spec (objs w ! q)) = Paused (Spec (items ! q))) \<and>
         (\<forall>q. \<not> (q < length items \<and> deploymentFailed (items ! q) \<and>
                   RollbackTo (Spec (items ! q)) = None) \<longrightarrow>
              objs w ! q = items ! q \<and> updatesOf q (trace w) = [])"
proof -
  let ?ps = "filter (\<lambda>p. deploymentFailed (items ! p) \<and> RollbackTo (Spec (items ! p)) = None)
               [0..<length items]"
  from run_dispatches [OF assms(1,2)] obtain evs a b c
    where tr: "trace w = [ListCall a, LogSummary (int (length items)) b c] @ evs"
      and ds: "dispatches items ?ps evs r"
    by blast
  have loop: "dispatchLoop cl ?ps
       \<lparr>dir = c', objs = items,
        trace = [ListCall (Namespace_of cl),
                 LogSummary (int (length items)) (int (length (filter deploymentFailed items)))
                   (int (length (filter deploymentFailed items)) -
                    int (length (filter (\<lambda>d. deploymentFailed d \<and> RollbackTo (Spec d) = None)
                                   items)))]\<rparr> = (r, w)"
    using assms(2) by (simp only: run_listed [OF assms(1)])
  have one: "p < length items \<and> deploymentFailed (items ! p) \<and>
            RollbackTo (Spec (items ! p)) = None \<and>
            d = (items ! p)\<lparr>Spec := (Spec (items ! p))
                                \<lparr>RollbackTo := Some \<lparr>Revision = Some 0\<rparr>\<rparr>\<rparr> \<and>
            Metadata d = Metadata (items ! p) \<and> DStatus d = DStatus (items ! p) \<and>
            Replicas (Spec d) = Replicas (Spec (items ! p)) \<and>
            Paused (Spec d) = Paused (Spec (items ! p))"
    if "UpdateCall p d e \<in> set (trace w)" for p d e
  proof -
    from that have "UpdateCall p d e \<in> set evs" by (auto simp: tr)
    from dispatches_member [OF ds this]
    have p: "p \<in> set ?ps" and d: "d = setRollbackTo (items ! p)" by simp_all
    from p have "p < length items" "deploymentFailed (items ! p)"
      "RollbackTo (Spec (items ! p)) = None" by simp_all
    then show ?thesis by (simp add: d setRollbackTo_def)
  qed
  have two: "length (objs w) = length items"
    using dispatch_length [OF loop] by simp
  have three: "Metadata (objs w ! q) = Metadata (items ! q) \<and>
              DStatus (objs w ! q) = DStatus (items ! q) \<and>
              Replicas (Spec (objs w ! q)) = Replicas (Spec (items ! q)) \<and>
              Paused (Spec (objs w ! q)) = Paused (Spec (items ! q))" for q
  proof -
    from dispatch_objs_either [OF loop, of q]
    have "objs w ! q = items ! q \<or> objs w ! q = setRollbackTo (items ! q)" by simp
    then show ?thesis by (auto simp: setRollbackTo_def)
  qed
  have four: "objs w ! q = items ! q \<and> updatesOf q (trace w) = []"
    if "\<not> (q < length items \<and> deploymentFailed (items ! q) \<and>
             RollbackTo (Spec (items ! q)) = None)" for q
  proof -
    from that have out: "q \<notin> set ?ps" by auto
    have "updatesOf q evs = []" by (rule dispatches_other [OF ds out])
    then have "updatesOf q (trace w) = []" by (simp add: tr)
    moreover have "objs w ! q = items ! q"
      using dispatch_objs_other [OF loop out] by simp
    ultimately show ?thesis by simp
  qed
  from one two three four show ?thesis by blast
qed

theorem update_frame_witness:
  "ListDeployments memClient scenario (Namespace_of memClient) =
     (Inr [recA, recB, recC], scenario) \<and>
   UpdateCall 1 (setRollbackTo recB) None \<in> set (trace (snd (run memClient scenario))) \<and>
   \<not> (0 < length [recA, recB, recC] \<and> deploymentFailed ([recA, recB, recC] ! 0) \<and>
       RollbackTo (Spec ([recA, recB, recC] ! 0)) = None) \<and>
   Metadata (setRollbackTo recB) = Metadata ([recA, recB, recC] ! 1) \<and>
   DStatus (setRollbackTo recB) = DStatus ([recA, recB, recC] ! 1) \<and>
   objs (snd (run memClient scenario)) ! 0 = [recA, recB, recC] ! 0 \<and>
   updatesOf 0 (trace (snd (run memClient scenario))) = []"
proof -
  have l: "ListDeployments memClient scenario (Namespace_of memClient) =
           (Inr [recA, recB, recC], scenario)"
    by (simp add: memClient_def memList_def scenario_def)
  have r: "run memClient scenario = (fst (run memClient scenario), snd (run memClient scenario))"
    by simp
  have u: "UpdateCall 1 (setRollbackTo recB) None \<in> set (trace (snd (run memClient scenario)))"
    by (simp add: example_defs run_defs)
  have a: "\<not> (0 < length [recA, recB, recC] \<and> deploymentFailed ([recA, recB, recC] ! 0) \<and>
       RollbackTo (Spec ([recA, recB, recC] ! 0)) = None)"
    by (simp add: example_defs run_defs)
  note fr = update_frame [OF l r]
  from fr u have m: "Metadata (setRollbackTo recB) = Metadata ([recA, recB, recC] ! 1)"
    by blast
  from fr u have s: "DStatus (setRollbackTo recB) = DStatus ([recA, recB, recC] ! 1)"
    by blast
  from fr a have o: "objs (snd (run memClient scenario)) ! 0 = [recA, recB, recC] ! 0"
    by blast
  from fr a have n: "updatesOf 0 (trace (snd (run memClient scenario))) = []"
    by blast
  show ?thesis by (intro conjI l u a m s o n)
qed

text \<open>
  C8. Take a pass that returned \<open>nil\<close> and in which the update of a record was accepted,
  and run a second pass on the directory as the first one left it. If the listing of the
  second pass shows, at some position, the rollback request that the first pass
  submitted for the record, then the second pass does not put that position into
  \<open>toUpdate\<close> and makes no update call for it, however it ends.
\<close>

theorem second_pass_idle:
  assumes "run cl c = (Ok, w1)"
      and "UpdateCall p d None \<in> set (trace w1)"
      and "ListDeployments cl (dir w1) (Namespace_of cl) = (Inr items2, c2)"
      and "q < length items2"
      and "RollbackTo (Spec (items2 ! q)) = RollbackTo (Spec d)"
      and "run cl (dir w1) = (r2, w2)"
  shows "RollbackTo (Spec d) = Some \<lparr>Revision = Some 0\<rparr> \<and>
         q \<notin> set (fst (planLoop items2 [0..<length items2] ([], 0))) \<and>
         updatesOf q (trace w2) = []"
proof -
  obtain lr c' where l1: "ListDeployments cl c (Namespace_of cl) = (lr, c')"
    by (cases "ListDeployments cl c (Namespace_of cl)")
  have "\<exists>items. lr = Inr items"
  proof (cases lr)
    case (Inl err)
    with l1 assms(1) show ?thesis by (simp add: run_def)
  next
    case (Inr items)
    then show ?thesis by simp
  qed
  then obtain items where l1': "ListDeployments cl c (Namespace_of cl) = (Inr items, c')"
    using l1 by blast
  let ?ps = "filter (\<lambda>p. deploymentFailed (items ! p) \<and> RollbackTo (Spec (items ! p)) = None)
               [0..<length items]"
  from run_dispatches [OF l1' assms(1)] obtain evs a b c
    where tr: "trace w1 = [ListCall a, LogSummary (int (length items)) b c] @ evs"
      and ds: "dispatches items ?ps evs Ok"
    by blast
  from assms(2) have "UpdateCall p d None \<in> set evs" by (auto simp: tr)
  from dispatches_member [OF ds this] have "d = setRollbackTo (items ! p)" by simp
  then have req: "RollbackTo (Spec d) = Some \<lparr>Revision = Some 0\<rparr>"
    by (simp add: setRollbackTo_def)
  let ?qs = "filter (\<lambda>p. deploymentFailed (items2 ! p) \<and> RollbackTo (Spec (items2 ! p)) = None)
               [0..<length items2]"
  have out: "q \<notin> set ?qs" using assms(5) req by simp
  have plan: "fst (planLoop items2 [0..<length items2] ([], 0)) = ?qs"
    by (simp add: planLoop_filter)
  from run_dispatches [OF assms(3,6)] obtain evs2 a2 b2 c2
    where tr2: "trace w2 = [ListCall a2, LogSummary (int (length items2)) b2 c2] @ evs2"
      and ds2: "dispatches items2 ?qs evs2 r2"
    by blast
  have "updatesOf q evs2 = []" by (rule dispatches_other [OF ds2 out])
  then have upd: "updatesOf q (trace w2) = []" by (simp add: tr2)
  show ?thesis
    using req out upd by (simp only: plan not_False_eq_True simp_thms)
qed

theorem second_pass_idle_witness:
  "fst (run memClient scenario) = Ok \<and>
   UpdateCall 1 (setRollbackTo recB) None \<in> set (trace (snd (run memClient scenario))) \<and>
   dir (snd (run memClient scenario)) =
     \<lparr>store = [recA, setRollbackTo recB, recC], rejects = []\<rparr> \<and>
   ListDeployments memClient (dir (snd (run memClient scenario))) (Namespace_of memClient) =
     (Inr [recA, setRollbackTo recB, recC], dir (snd (run memClient scenario))) \<and>
   RollbackTo (Spec ([recA, setRollbackTo recB, recC] ! 1)) =
     RollbackTo (Spec (setRollbackTo recB)) \<and>
   updatesOf 1 (trace (snd (run memClient (dir (snd (run memClient scenario)))))) = [] \<and>
   trace (snd (run memClient (dir (snd (run memClient scenario))))) =
     [ListCall ''default'', LogSummary 3 2 2]"
proof -
  have ok: "fst (run memClient scenario) = Ok"
    by (simp add: example_defs run_defs)
  then have r1: "run memClient scenario = (Ok, snd (run memClient scenario))"
    by (simp add: prod_eq_iff)
  have u: "UpdateCall 1 (setRollbackTo recB) None \<in> set (trace (snd (run memClient scenario)))"
    by (simp add: example_defs run_defs)
  have d: "dir (snd (run memClient scenario)) =
           \<lparr>store = [recA, setRollbackTo recB, recC], rejects = []\<rparr>"
    by (simp add: example_defs run_defs)
  have l2: "ListDeployments memClient (dir (snd (run memClient scenario)))
              (Namespace_of memClient) =
            (Inr [recA, setRollbackTo recB, recC], dir (snd (run memClient scenario)))"
    by (simp add: d) (simp add: memClient_def memList_def)
  have n: "(1::nat) < length [recA, setRollbackTo recB, recC]" by simp
  have e: "RollbackTo (Spec ([recA, setRollbackTo recB, recC] ! 1)) =
           RollbackTo (Spec (setRollbackTo recB))"
    by simp
  have r2: "run memClient (dir (snd (run memClient scenario))) =
            (fst (run memClient (dir (snd (run memClient scenario)))),
             snd (run memClient (dir (snd (run memClient scenario)))))"
    by simp
  note idle = second_pass_idle [OF r1 u l2 n e r2]
  from idle
  have z: "updatesOf 1 (trace (snd (run memClient (dir (snd (run memClient scenario)))))) = []"
    by (rule conjunct2 [OF conjunct2])
  have t: "trace (snd (run memClient (dir (snd (run memClient scenario))))) =
           [ListCall ''default'', LogSummary 3 2 2]"
    by (simp add: d) (simp add: example_defs run_defs)
  show ?thesis by (intro conjI ok u d l2 e z t)
qed

text \<open>
  C9. The log line after an accepted update dereferences \<open>d.Metadata.Name\<close>. For a
  failed record without a rollback request whose name is \<open>nil\<close>, and a client that
  accepts its update, the pass neither returns \<open>nil\<close> nor an error: it panics after the
  update call.
\<close>

theorem nameless_record_panics:
  "run memClient anonymous =
     (Panic,
      \<lparr>dir = \<lparr>store = [setRollbackTo recNameless], rejects = []\<rparr>,
        objs = [setRollbackTo recNameless],
        trace = [ListCall ''default'', LogSummary 1 1 0,
                 UpdateCall 0 (setRollbackTo recNameless) None]\<rparr>)"
  by (simp add: example_defs run_defs)

text \<open>
  C6. The claim puts the summary line after the dispatches. In \<open>run\<close> the line is
  logged between the two loops: in the example scenario the summary is the second event
  of the pass, the update of \<open>B\<close> is the third, and an update call follows the summary.
\<close>

theorem summary_after_dispatch_counterexample:
  "trace (snd (run memClient scenario)) ! 1 = LogSummary 3 2 1 \<and>
   trace (snd (run memClient scenario)) ! 2 = UpdateCall 1 (setRollbackTo recB) None \<and>
   list_ex is_UpdateCall
     (dropWhile (Not \<circ> is_LogSummary) (trace (snd (run memClient scenario)))) \<and>
   \<not> is_LogSummary (last (trace (snd (run memClient scenario))))"
  by (simp add: example_defs run_defs)

text \<open>
  C6, amended. A pass whose listing succeeded lists, runs the first loop over the whole
  listing, logs one summary line with the number of records, the number of failed
  records and the difference of that number and the length of \<open>toUpdate\<close>, and only
  then dispatches: every later event is an update call or the log line of a rollback,
  and the update calls go through \<open>toUpdate\<close> in order, through all of it when the pass
  returns \<open>nil\<close>. In the example scenario the pass returns \<open>nil\<close>, the summary is
  3, 2, 1, the only update call submits \<open>B\<close> with revision 0, and \<open>A\<close> and \<open>C\<close>
  are unchanged in the directory.
\<close>

theorem summary_before_dispatch:
  assumes "ListDeployments cl c (Namespace_of cl) = (Inr items, c')"
      and "run cl c = (r, w)"
  shows "(\<exists>evs. trace w =
            ListCall (Namespace_of cl) #
            LogSummary (int (length items)) (int (length (filter deploymentFailed items)))
              (int (length (filter deploymentFailed items)) -
               int (length (filter (\<lambda>d. deploymentFailed d \<and> RollbackTo (Spec d) = None)
                              items))) # evs \<and>
            (\<forall>ev \<in> set evs. is_UpdateCall ev \<or> is_LogRolledBack ev) \<and>
            prefix (updatePtrs evs)
              (filter (\<lambda>p. deploymentFailed (items ! p) \<and> RollbackTo (Spec (items ! p)) = None)
                 [0..<length items]) \<and>
            (r = Ok \<longrightarrow> updatePtrs evs =
              filter (\<lambda>p. deploymentFailed (items ! p) \<and> RollbackTo (Spec (items ! p)) = None)
                 [0..<length items])) \<and>
         length (filter is_LogSummary (trace w)) = 1 \<and>
         run memClient scenario =
           (Ok, \<lparr>dir = \<lparr>store = [recA, setRollbackTo recB, recC], rejects = []\<rparr>,
                 objs = [recA, setRollbackTo recB, recC],
                 trace = [ListCall ''default'', LogSummary 3 2 1,
                          UpdateCall 1 (setRollbackTo recB) None, LogRolledBack ''b'']\<rparr>) \<and>
         RollbackTo (Spec (setRollbackTo recB)) = Some \<lparr>Revision = Some 0\<rparr>"
proof -
  let ?ps = "filter (\<lambda>p. deploymentFailed (items ! p) \<and> RollbackTo (Spec (items ! p)) = None)
               [0..<length items]"
  let ?sum = "LogSummary (int (length items)) (int (length (filter deploymentFailed items)))
              (int (length (filter deploymentFailed items)) -
               int (length (filter (\<lambda>d. deploymentFailed d \<and> RollbackTo (Spec d) = None)
                              items)))"
  from run_dispatches [OF assms(1,2)] obtain evs
    where tr: "trace w = [ListCall (Namespace_of cl), ?sum] @ evs"
      and ds: "dispatches items ?ps evs r"
    by blast
  have kinds: "\<forall>ev \<in> set evs. is_UpdateCall ev \<or> is_LogRolledBack ev"
  proof
    fix ev assume "ev \<in> set evs"
    from dispatches_kinds [OF ds this] show "is_UpdateCall ev \<or> is_LogRolledBack ev"
      by auto
  qed
  have pre: "prefix (updatePtrs evs) ?ps" by (rule dispatches_ptrs [OF ds])
  have all: "r = Ok \<longrightarrow> updatePtrs evs = ?ps"
    using dispatches_Ok_ptrs [OF ds] by simp
  have "filter is_LogSummary evs = []"
    using kinds by (auto simp: filter_empty_conv event.disc_eq_case split: event.splits)
  then have count: "length (filter is_LogSummary (trace w)) = 1"
    by (simp add: tr)
  have first: "\<exists>evs. trace w = ListCall (Namespace_of cl) # ?sum # evs \<and>
            (\<forall>ev \<in> set evs. is_UpdateCall ev \<or> is_LogRolledBack ev) \<and>
            prefix (updatePtrs evs) ?ps \<and> (r = Ok \<longrightarrow> updatePtrs evs = ?ps)"
    using tr kinds pre all by auto
  have example: "run memClient scenario =
           (Ok, \<lparr>dir = \<lparr>store = [recA, setRollbackTo recB, recC], rejects = []\<rparr>,
                 objs = [recA, setRollbackTo recB, recC],
                 trace = [ListCall ''default'', LogSummary 3 2 1,
                          UpdateCall 1 (setRollbackTo recB) None, LogRolledBack ''b'']\<rparr>)"
    by (simp add: example_defs run_defs)
  have zero: "RollbackTo (Spec (setRollbackTo recB)) = Some \<lparr>Revision = Some 0\<rparr>"
    by (simp add: setRollbackTo_def)
  from first count example zero show ?thesis by (intro conjI)
qed

theorem summary_before_dispatch_witness:
  "ListDeployments memClient scenario (Namespace_of memClient) =
     (Inr [recA, recB, recC], scenario) \<and>
   trace (snd (run memClient scenario)) ! 0 = ListCall ''default'' \<and>
   trace (snd (run memClient scenario)) ! 1 = LogSummary 3 2 1 \<and>
   length (filter is_LogSummary (trace (snd (run memClient scenario)))) = 1"
proof -
  have l: "ListDeployments memClient scenario (Namespace_of memClient) =
           (Inr [recA, recB, recC], scenario)"
    by (simp add: memClient_def memList_def scenario_def)
  have r: "run memClient scenario = (fst (run memClient scenario), snd (run memClient scenario))"
    by simp
  have ns: "Namespace_of memClient = ''default''"
    by (simp add: memClient_def)
  have f: "int (length (filter deploymentFailed [recA, recB, recC])) = 2"
    by (simp add: example_defs deploymentFailed_def eq_def)
  have n: "int (length (filter (\<lambda>d. deploymentFailed d \<and> RollbackTo (Spec d) = None)
             [recA, recB, recC])) = 1"
    by (simp add: example_defs deploymentFailed_def eq_def)
  note ord = summary_before_dispatch [OF l r]
  from ord obtain evs where
    "trace (snd (run memClient scenario)) =
       ListCall (Namespace_of memClient) #
       LogSummary (int (length [recA, recB, recC]))
         (int (length (filter deploymentFailed [recA, recB, recC])))
         (int (length (filter deploymentFailed [recA, recB, recC])) -
          int (length (filter (\<lambda>d. deploymentFailed d \<and> RollbackTo (Spec d) = None)
                         [recA, recB, recC]))) # evs"
    by blast
  then have t: "trace (snd (run memClient scenario)) =
                  ListCall ''default'' # LogSummary 3 2 1 # evs"
    by (simp only: ns f n) simp
  from t have t0: "trace (snd (run memClient scenario)) ! 0 = ListCall ''default''"
    by simp
  from t have t1: "trace (snd (run memClient scenario)) ! 1 = LogSummary 3 2 1"
    by simp
  from ord have c: "length (filter is_LogSummary (trace (snd (run memClient scenario)))) = 1"
    by (rule conjunct1 [OF conjunct2])
  show ?thesis by (intro conjI l t0 t1 c)
qed

end
